theory Spec2Isabelle
  imports Main "HOL-Library.Word"
begin

unbundle bit_operations_syntax

section \<open>Input acquisition core (src/input/input.cpp)\<close>

text \<open>
  A shallow embedding of \<^verbatim>\<open>src/input/input.cpp\<close>: the GPIO port cache, the raw state
  reader, the debounce filter, the stick synthesiser and the lock gate. Globals of the
  translation unit are fields of explicit state records; every \<^verbatim>\<open>PANIC\<close> is the
  \<open>Inl\<close> branch of a sum. Macros and declarations that live in headers outside the
  translation unit (\<^verbatim>\<open>PL_GPIOS\<close>, \<^verbatim>\<open>PL_GPIO_OUTPUT_MODES\<close>, \<^verbatim>\<open>PL_GPIO_PIN\<close>,
  \<^verbatim>\<open>PL_GPIO_FLAGS\<close>, \<^verbatim>\<open>k_ms_to_cyc_ceil64\<close>, the Kconfig switches) are fields of the
  record \<open>board\<close>; calls into the kernel and the drivers are fields of the record \<open>hw\<close>.
\<close>

subsection \<open>Data model\<close>

text \<open>
  \<^verbatim>\<open>enum class OutputMode\<close> (input.cpp, inside \<^verbatim>\<open>input_parse\<close>) and
  \<^verbatim>\<open>enum class StickState\<close> (the nine values \<^verbatim>\<open>stick_state_from_x_y\<close> returns).
\<close>

datatype OutputMode = mode_dpad | mode_ls | mode_rs

datatype StickState =
  North | NorthEast | East | SouthEast | South | SouthWest | West | NorthWest | Neutral

text \<open>
  The names a \<^verbatim>\<open>PL_GPIO(index, name)\<close> entry can carry: every member of
  \<^verbatim>\<open>RawInputState\<close> that input.cpp reads, and \<open>other\<close> for any further line a board
  declares. A mode-select line is named after the
  \<^verbatim>\<open>OutputMode\<close> it selects (the macro at lines 290-293 uses one token for both
  \<^verbatim>\<open>in->mode\<close> and \<^verbatim>\<open>OutputMode::mode\<close>), so the line of mode \<open>m\<close> is \<open>gpio.mode m\<close>.
  The record \<open>InputState\<close> below reuses the button names for its fields, as the C++
  structs do; a line is therefore always written with its qualifier, \<open>gpio.button_north\<close>.
\<close>

datatype gpio =
  button_north | button_east | button_south | button_west
| button_l1 | button_l2 | button_l3
| button_r1 | button_r2 | button_r3
| button_select | button_start | button_home | button_touchpad
| stick_up | stick_down | stick_right | stick_left
| mode OutputMode
| mode_lock
| other string

text \<open>
  \<^verbatim>\<open>RawInputState\<close>: one bit per logical line, read and written by name
  (\<^verbatim>\<open>in->name\<close>, \<^verbatim>\<open>out->name\<close>).
\<close>

type_synonym RawInputState = "gpio \<Rightarrow> bool"

text \<open>\<^verbatim>\<open>struct ButtonHistory\<close> (lines 196-201).\<close>

record ButtonHistory =
  state :: bool
  tick :: "64 word"

text \<open>
  The globals of the parse stage: \<^verbatim>\<open>touchpad_data\<close> (line 20), \<^verbatim>\<open>input_locked\<close>
  (line 181) and \<^verbatim>\<open>button_history\<close> (lines 203-207, one \<^verbatim>\<open>ButtonHistory\<close> per
  line name). \<open>display_set_locked_calls\<close> logs the arguments of the calls to
  \<^verbatim>\<open>display_set_locked\<close>, oldest first. The field \<open>touchpad_data\<close> of \<open>InputState\<close>
  has the same name as the global, which is written \<open>globals.touchpad_data\<close>.
\<close>

record 'tp globals =
  touchpad_data :: 'tp
  input_locked :: bool
  button_history :: "gpio \<Rightarrow> ButtonHistory"
  display_set_locked_calls :: "bool list"

text \<open>
  \<^verbatim>\<open>InputState\<close>: the members \<^verbatim>\<open>input_parse\<close> assigns. \<open>'tp\<close> is
  \<^verbatim>\<open>TouchpadData\<close>, copied through untouched.
\<close>

record 'tp InputState =
  touchpad_data :: 'tp
  button_north :: bool
  button_east :: bool
  button_south :: bool
  button_west :: bool
  button_l1 :: bool
  button_l2 :: bool
  button_l3 :: bool
  button_r1 :: bool
  button_r2 :: bool
  button_r3 :: bool
  button_touchpad :: bool
  button_select :: bool
  button_start :: bool
  button_home :: bool
  dpad :: StickState
  left_stick_x :: "8 word"
  left_stick_y :: "8 word"
  right_stick_x :: "8 word"
  right_stick_y :: "8 word"

text \<open>
  A \<^verbatim>\<open>const struct device*\<close> is its address; \<open>NULL\<close> is address 0.
\<close>

type_synonym device = nat

abbreviation NULL :: device where
  "NULL \<equiv> 0"

text \<open>
  Modelled from the spec: \<^verbatim>\<open>PANIC\<close> (panic.h) halts the process; nothing after it
  runs and nothing is returned to the caller. A function that can panic returns
  \<open>panic + 'a\<close>, with \<open>Inl\<close> the halt.
\<close>

datatype panic = Panic string

text \<open>Which branch of the \<^verbatim>\<open>#if\<close> at lines 29, 45 and 67 is compiled.\<close>

datatype input_source = INPUT_NONE | INPUT_EXTERNAL | INPUT_GPIO

text \<open>
  Build-time configuration. \<open>PL_GPIOS\<close> and \<open>PL_GPIO_OUTPUT_MODES\<close> are the
  \<^verbatim>\<open>PL_GPIO(index, name)\<close> entries of the two list macros, in declaration order;
  \<open>k_ms_to_cyc_ceil64_5\<close> is the value of \<^verbatim>\<open>k_ms_to_cyc_ceil64(5)\<close>.
\<close>

record board =
  CONFIG_PASSINGLINK_INPUT :: input_source
  CONFIG_PASSINGLINK_INPUT_QUEUE :: bool
  CONFIG_PASSINGLINK_DISPLAY :: bool
  PL_GPIO_MODE_LOCK_AVAILABLE :: bool
  PL_GPIOS :: "(nat \<times> gpio) list"
  PL_GPIO_OUTPUT_MODES :: "(nat \<times> OutputMode) list"
  PL_GPIO_PIN :: "gpio \<Rightarrow> nat"
  PL_GPIO_ACTIVE_LOW :: "gpio \<Rightarrow> bool"
  k_ms_to_cyc_ceil64_5 :: "64 word"

text \<open>
  What the kernel and the drivers answer during one call: the binding of a line's device
  label, the return code of \<^verbatim>\<open>gpio_pin_configure\<close>, the return code and port word of
  \<^verbatim>\<open>gpio_port_get_raw\<close>, the queued override, the uptime, and the indeterminate
  contents of the uninitialised locals (\<^verbatim>\<open>port_values\<close>).
\<close>

record hw =
  device_get_binding :: "gpio \<Rightarrow> device"
  gpio_pin_configure :: "device \<Rightarrow> gpio \<Rightarrow> int"
  gpio_port_get_raw :: "device \<Rightarrow> int \<times> 32 word"
  input_queue_get_state :: "RawInputState option"
  k_uptime_ticks :: "64 word"
  port_values_uninit :: "nat \<Rightarrow> 32 word"

subsection \<open>Port cache\<close>

definition GPIO_PORT_COUNT :: nat where
  "GPIO_PORT_COUNT = 4"

text \<open>
  The statics of lines 71-74. \<open>gpio_devices\<close> has \<open>GPIO_PORT_COUNT\<close> slots;
  \<open>gpio_indices\<close> is indexed by the build-time index of a line.
\<close>

record gpio_cache =
  gpio_devices :: "device list"
  gpio_device_count :: "8 word"
  gpio_indices :: "nat \<Rightarrow> 8 word"

definition gpio_cache_init :: gpio_cache where
  "gpio_cache_init =
     \<lparr>gpio_devices = replicate GPIO_PORT_COUNT NULL,
      gpio_device_count = 0,
      gpio_indices = (\<lambda>_. 0)\<rparr>"

text \<open>
  \<^verbatim>\<open>gpio_device_add\<close> (lines 76-91). The \<^verbatim>\<open>for\<close> loop returns the first slot among
  all \<open>GPIO_PORT_COUNT\<close> that holds \<open>device\<close>; otherwise a full cache panics, and a
  cache with room stores the device at \<open>gpio_device_count\<close> and increments the count.
  A count above \<open>GPIO_PORT_COUNT\<close> would make the C store run past the array; no state
  the cache reaches has one (\<open>cache_inv\<close> below), and the list update does nothing
  there.
\<close>

definition gpio_device_add :: "device \<Rightarrow> gpio_cache \<Rightarrow> panic + (8 word \<times> gpio_cache)" where
  "gpio_device_add device c =
     (case find (\<lambda>i. device = gpio_devices c ! i) [0..<GPIO_PORT_COUNT] of
        Some i \<Rightarrow> Inr (of_nat i, c)
      | None \<Rightarrow>
          if gpio_device_count c = of_nat GPIO_PORT_COUNT
          then Inl (Panic ''ran out of cached GPIO device slots'')
          else let i = gpio_device_count c
               in Inr (i, c\<lparr>gpio_device_count := gpio_device_count c + 1,
                            gpio_devices := (gpio_devices c)[unat i := device]\<rparr>))"

text \<open>
  \<^verbatim>\<open>input_gpio_init\<close>, GPIO branch (lines 93-109): one block per \<^verbatim>\<open>PL_GPIO\<close> entry.
\<close>

fun input_gpio_init_entries :: "hw \<Rightarrow> (nat \<times> gpio) list \<Rightarrow> gpio_cache \<Rightarrow> panic + gpio_cache" where
  "input_gpio_init_entries h [] c = Inr c"
| "input_gpio_init_entries h ((index, name) # rest) c =
     (let device = device_get_binding h name in
      if device = NULL then Inl (Panic ''failed to find gpio device'')
      else if gpio_pin_configure h device name \<noteq> 0 then Inl (Panic ''failed to configure gpio pin'')
      else (case gpio_device_add device c of
              Inl p \<Rightarrow> Inl p
            | Inr (device_offset, c') \<Rightarrow>
                input_gpio_init_entries h rest
                  (c'\<lparr>gpio_indices := (gpio_indices c')(index := device_offset)\<rparr>)))"

definition input_gpio_init :: "board \<Rightarrow> hw \<Rightarrow> gpio_cache \<Rightarrow> panic + gpio_cache" where
  "input_gpio_init b h c =
     (case CONFIG_PASSINGLINK_INPUT b of
        INPUT_GPIO \<Rightarrow> input_gpio_init_entries h (PL_GPIOS b) c
      | _ \<Rightarrow> Inr c)"

text \<open>
  The states the cache can be in: the zero-initialised statics, and whatever a call of
  \<^verbatim>\<open>gpio_device_add\<close> that returns leaves behind. Its only caller passes a device
  that passed the null check of line 97.
\<close>

inductive cache_reachable :: "gpio_cache \<Rightarrow> bool" where
  cache_init: "cache_reachable gpio_cache_init"
| cache_add: "cache_reachable c \<Longrightarrow> device \<noteq> NULL \<Longrightarrow> gpio_device_add device c = Inr (i, c')
     \<Longrightarrow> cache_reachable c'"
| cache_index: "cache_reachable c \<Longrightarrow> cache_reachable (c\<lparr>gpio_indices := f\<rparr>)"

text \<open>The handles the cache holds: the first \<open>gpio_device_count\<close> slots.\<close>

definition cached_devices :: "gpio_cache \<Rightarrow> device list" where
  "cached_devices c = take (unat (gpio_device_count c)) (gpio_devices c)"

subsection \<open>Raw state reader\<close>

text \<open>
  The read loop of lines 121-126 over the cached devices: one \<^verbatim>\<open>gpio_port_get_raw\<close>
  per device, a nonzero return code panics.
\<close>

fun read_ports :: "hw \<Rightarrow> device list \<Rightarrow> panic + 32 word list" where
  "read_ports h [] = Inr []"
| "read_ports h (d # ds) =
     (case gpio_port_get_raw h d of
        (rc, v) \<Rightarrow>
          if rc \<noteq> 0 then Inl (Panic ''failed to get gpio values'')
          else (case read_ports h ds of
                  Inl p \<Rightarrow> Inl p
                | Inr vs \<Rightarrow> Inr (v # vs)))"

text \<open>
  \<^verbatim>\<open>port_values[device_index]\<close>: a slot the loop wrote, or the indeterminate contents
  of the local array.
\<close>

definition port_value :: "hw \<Rightarrow> 32 word list \<Rightarrow> nat \<Rightarrow> 32 word" where
  "port_value h port_values i =
     (if i < length port_values then port_values ! i else port_values_uninit h i)"

text \<open>The extraction block of lines 128-139, one per \<^verbatim>\<open>PL_GPIO\<close> entry.\<close>

fun extract_lines :: "board \<Rightarrow> hw \<Rightarrow> gpio_cache \<Rightarrow> 32 word list \<Rightarrow> (nat \<times> gpio) list
    \<Rightarrow> RawInputState \<Rightarrow> RawInputState" where
  "extract_lines b h c port_values [] out = out"
| "extract_lines b h c port_values ((index, name) # rest) out =
     (let device_index = gpio_indices c index;
          value = (port_value h port_values (unat device_index)
                     AND push_bit (PL_GPIO_PIN b name) 1 \<noteq> 0)
      in extract_lines b h c port_values rest
           (out(name := (if PL_GPIO_ACTIVE_LOW b name then \<not> value else value))))"

text \<open>
  \<^verbatim>\<open>input_get_raw_state\<close> (lines 33-43, 51-61, 111-142). \<open>input_state\<close> is the static
  of the external branch, \<open>out\<close> the caller's struct before the call. The result pairs
  the returned \<^verbatim>\<open>bool\<close> with \<^verbatim>\<open>*out\<close>.
\<close>

definition input_get_raw_state :: "board \<Rightarrow> hw \<Rightarrow> gpio_cache \<Rightarrow> RawInputState \<Rightarrow> RawInputState
    \<Rightarrow> panic + (bool \<times> RawInputState)" where
  "input_get_raw_state b h c input_state out =
     (case (if CONFIG_PASSINGLINK_INPUT_QUEUE b then input_queue_get_state h else None) of
        Some input \<Rightarrow> Inr (True, input)
      | None \<Rightarrow>
          (case CONFIG_PASSINGLINK_INPUT b of
             INPUT_NONE \<Rightarrow> Inr (True, (\<lambda>_. False))
           | INPUT_EXTERNAL \<Rightarrow> Inr (True, input_state)
           | INPUT_GPIO \<Rightarrow>
               (case read_ports h (cached_devices c) of
                  Inl p \<Rightarrow> Inl p
                | Inr port_values \<Rightarrow>
                    Inr (True, extract_lines b h c port_values (PL_GPIOS b) out))))"

subsection \<open>Stick synthesiser\<close>

text \<open>\<^verbatim>\<open>stick_state_from_x_y\<close> (lines 146-168).\<close>

definition stick_state_from_x_y :: "int \<Rightarrow> int \<Rightarrow> StickState" where
  "stick_state_from_x_y horizontal vertical =
     (if vertical = -1 \<and> horizontal = 0 then North
      else if vertical = -1 \<and> horizontal = 1 then NorthEast
      else if vertical = 0 \<and> horizontal = 1 then East
      else if vertical = 1 \<and> horizontal = 1 then SouthEast
      else if vertical = 1 \<and> horizontal = 0 then South
      else if vertical = 1 \<and> horizontal = -1 then SouthWest
      else if vertical = 0 \<and> horizontal = -1 then West
      else if vertical = -1 \<and> horizontal = -1 then NorthWest
      else Neutral)"

text \<open>\<^verbatim>\<open>stick_scale\<close> (lines 171-179).\<close>

definition stick_scale :: "int \<Rightarrow> 8 word" where
  "stick_scale sign =
     (if sign < 0 then 0x00
      else if sign = 0 then 0x80
      else 0xFF)"

text \<open>
  The intent computed at lines 265-281 of \<^verbatim>\<open>input_parse\<close>, as the pair
  \<open>(stick_horizontal, stick_vertical)\<close>.
\<close>

definition stick_intent :: "RawInputState \<Rightarrow> int \<times> int" where
  "stick_intent inp =
     (let stick_vertical = 0;
          stick_horizontal = 0;
          stick_vertical = (if inp gpio.stick_up then stick_vertical - 1 else stick_vertical);
          stick_vertical = (if inp gpio.stick_down then stick_vertical + 1 else stick_vertical);
          stick_horizontal = (if inp gpio.stick_right then stick_horizontal + 1 else stick_horizontal);
          stick_horizontal = (if inp gpio.stick_left then stick_horizontal - 1 else stick_horizontal)
      in (stick_horizontal, stick_vertical))"

text \<open>
  The \<^verbatim>\<open>else if\<close> chain of lines 289-297: \<open>output_mode\<close> starts as \<open>mode_dpad\<close>, and
  the first \<^verbatim>\<open>PL_GPIO_OUTPUT_MODES\<close> entry whose line is set assigns its mode.
\<close>

fun select_output_mode :: "(nat \<times> OutputMode) list \<Rightarrow> RawInputState \<Rightarrow> OutputMode" where
  "select_output_mode [] inp = mode_dpad"
| "select_output_mode ((index, m) # rest) inp =
     (if inp (gpio.mode m) then m else select_output_mode rest inp)"

text \<open>
  Modelled from the spec: the list macro \<^verbatim>\<open>PL_GPIO_OUTPUT_MODES\<close> is declared outside
  this translation unit. The spec gives it the lines of the stick modes only ("digital-pad
  is chosen only when no other mode line is asserted, never by matching a dpad signal
  itself"): no entry names \<open>mode_dpad\<close>.
\<close>

definition stick_mode_lines :: "(nat \<times> OutputMode) list \<Rightarrow> bool" where
  "stick_mode_lines ms = (mode_dpad \<notin> snd ` set ms)"

subsection \<open>Lock gate\<close>

text \<open>\<^verbatim>\<open>input_get_locked\<close> and \<^verbatim>\<open>input_set_locked\<close> (lines 181-194).\<close>

definition input_get_locked :: "'tp globals \<Rightarrow> bool" where
  "input_get_locked g = input_locked g"

definition input_set_locked :: "board \<Rightarrow> bool \<Rightarrow> 'tp globals \<Rightarrow> 'tp globals" where
  "input_set_locked b locked g =
     (let g = (if CONFIG_PASSINGLINK_DISPLAY b \<and> locked \<noteq> input_locked g
               then g\<lparr>display_set_locked_calls := display_set_locked_calls g @ [locked]\<rparr>
               else g)
      in g\<lparr>input_locked := locked\<rparr>)"

subsection \<open>Debounce engine\<close>

text \<open>
  \<^verbatim>\<open>input_debounce\<close> (lines 211-228); the first argument is the constant
  \<^verbatim>\<open>transition_time\<close>, and \<open>history\<close> is \<^verbatim>\<open>*button_history\<close>. The subtraction is on
  \<^verbatim>\<open>uint64_t\<close> and wraps. The result is the returned value and the history after the
  call.
\<close>

definition input_debounce :: "64 word \<Rightarrow> bool \<Rightarrow> ButtonHistory \<Rightarrow> 64 word \<Rightarrow> bool \<times> ButtonHistory" where
  "input_debounce transition_time current_state history current_tick =
     (if current_state = state history then (current_state, history)
      else let duration_ticks = current_tick - tick history
           in if duration_ticks < transition_time then (\<not> current_state, history)
              else (current_state, history\<lparr>state := current_state, tick := current_tick\<rparr>))"

text \<open>
  The debounce loop of lines 238-241, one assignment per \<^verbatim>\<open>PL_GPIO\<close> entry.
\<close>

fun debounce_inputs :: "64 word \<Rightarrow> 64 word \<Rightarrow> (nat \<times> gpio) list \<Rightarrow> (gpio \<Rightarrow> ButtonHistory)
    \<Rightarrow> RawInputState \<Rightarrow> (gpio \<Rightarrow> ButtonHistory) \<times> RawInputState" where
  "debounce_inputs transition_time current_tick [] bh inp = (bh, inp)"
| "debounce_inputs transition_time current_tick ((index, name) # rest) bh inp =
     (case input_debounce transition_time (inp name) (bh name) current_tick of
        (v, history) \<Rightarrow>
          debounce_inputs transition_time current_tick rest (bh(name := history)) (inp(name := v)))"

subsection \<open>Pipeline\<close>

text \<open>
  \<^verbatim>\<open>input_parse\<close> (lines 230-322). The result is the returned \<^verbatim>\<open>bool\<close>, the globals
  after the call and \<^verbatim>\<open>*out\<close>.
\<close>

definition input_parse :: "board \<Rightarrow> hw \<Rightarrow> 'tp globals \<Rightarrow> RawInputState
    \<Rightarrow> bool \<times> 'tp globals \<times> 'tp InputState" where
  "input_parse b h g inp =
     (let current_tick = k_uptime_ticks h;
          (bh, inp) = debounce_inputs (k_ms_to_cyc_ceil64_5 b) current_tick (PL_GPIOS b)
                        (button_history g) inp;
          g = g\<lparr>button_history := bh\<rparr>;
          g = (if PL_GPIO_MODE_LOCK_AVAILABLE b then input_set_locked b (inp gpio.mode_lock) g
               else g);
          (stick_horizontal, stick_vertical) = stick_intent inp;
          output_mode = select_output_mode (PL_GPIO_OUTPUT_MODES b) inp;
          out = \<lparr>touchpad_data = globals.touchpad_data g,
                 button_north = inp gpio.button_north,
                 button_east = inp gpio.button_east,
                 button_south = inp gpio.button_south,
                 button_west = inp gpio.button_west,
                 button_l1 = inp gpio.button_l1,
                 button_l2 = inp gpio.button_l2,
                 button_l3 = inp gpio.button_l3,
                 button_r1 = inp gpio.button_r1,
                 button_r2 = inp gpio.button_r2,
                 button_r3 = inp gpio.button_r3,
                 button_touchpad = inp gpio.button_touchpad,
                 button_select = (if input_locked g then False else inp gpio.button_select),
                 button_start = (if input_locked g then False else inp gpio.button_start),
                 button_home = (if input_locked g then False else inp gpio.button_home),
                 dpad = Neutral,
                 left_stick_x = 128,
                 left_stick_y = 128,
                 right_stick_x = 128,
                 right_stick_y = 128\<rparr>;
          out = (case output_mode of
                   mode_dpad \<Rightarrow>
                     out\<lparr>dpad := stick_state_from_x_y stick_horizontal stick_vertical\<rparr>
                 | mode_ls \<Rightarrow>
                     out\<lparr>left_stick_x := stick_scale stick_horizontal,
                         left_stick_y := stick_scale stick_vertical\<rparr>
                 | mode_rs \<Rightarrow>
                     out\<lparr>right_stick_x := stick_scale stick_horizontal,
                         right_stick_y := stick_scale stick_vertical\<rparr>)
      in (True, g, out))"

text \<open>
  \<^verbatim>\<open>input_get_state\<close> (lines 324-327): \<open>input\<close> and \<open>out\<close> are the two structs before
  the call; \<^verbatim>\<open>&&\<close> skips the parse when the read returns false.
\<close>

definition input_get_state :: "board \<Rightarrow> hw \<Rightarrow> gpio_cache \<Rightarrow> RawInputState \<Rightarrow> 'tp globals
    \<Rightarrow> RawInputState \<Rightarrow> 'tp InputState \<Rightarrow> panic + (bool \<times> 'tp globals \<times> 'tp InputState)" where
  "input_get_state b h c input_state g input out =
     (case input_get_raw_state b h c input_state input of
        Inl p \<Rightarrow> Inl p
      | Inr (ok, input) \<Rightarrow>
          if ok then Inr (input_parse b h g input) else Inr (False, g, out))"

text \<open>
  \<^verbatim>\<open>*in\<close> after the debounce loop of \<^verbatim>\<open>input_parse\<close>: the debounced snapshot that the
  rest of the function reads.
\<close>

definition debounced :: "board \<Rightarrow> hw \<Rightarrow> 'tp globals \<Rightarrow> RawInputState \<Rightarrow> RawInputState" where
  "debounced b h g inp =
     snd (debounce_inputs (k_ms_to_cyc_ceil64_5 b) (k_uptime_ticks h) (PL_GPIOS b)
            (button_history g) inp)"

subsection \<open>One line over many polls\<close>

text \<open>
  \<^verbatim>\<open>input_parse\<close> calls \<^verbatim>\<open>input_debounce\<close> once per line and poll, each call on the
  history the previous one left. \<open>debounce_run\<close> is that sequence of calls for one line:
  a sample is the raw value and the tick of one poll, the result is the value each call
  returned and the history after the last.
\<close>

fun debounce_run :: "64 word \<Rightarrow> ButtonHistory \<Rightarrow> (bool \<times> 64 word) list
    \<Rightarrow> bool list \<times> ButtonHistory" where
  "debounce_run transition_time history [] = ([], history)"
| "debounce_run transition_time history ((v, t) # rest) =
     (case input_debounce transition_time v history t of
        (r, history') \<Rightarrow>
          (case debounce_run transition_time history' rest of
             (rs, history'') \<Rightarrow> (r # rs, history'')))"

text \<open>
  The ticks at which the accepted value changed: \<open>changes prev rs ts\<close> lists the tick of
  every returned value that differs from the one returned before it (\<open>prev\<close> before the
  first).
\<close>

fun changes :: "bool \<Rightarrow> bool list \<Rightarrow> 64 word list \<Rightarrow> 64 word list" where
  "changes prev (r # rs) (t # ts) = (if r \<noteq> prev then t # changes r rs ts else changes r rs ts)"
| "changes prev _ _ = []"

definition change_ticks :: "64 word \<Rightarrow> ButtonHistory \<Rightarrow> (bool \<times> 64 word) list \<Rightarrow> 64 word list" where
  "change_ticks transition_time history samples =
     changes (state history) (fst (debounce_run transition_time history samples)) (map snd samples)"

text \<open>
  The spec's "raw input toggles faster than the minimum dwell time": every sample flips
  the raw value and comes less than \<open>transition_time\<close> ticks after the one before.
\<close>

fun toggles_faster :: "64 word \<Rightarrow> (bool \<times> 64 word) list \<Rightarrow> bool" where
  "toggles_faster transition_time ((v1, t1) # (v2, t2) # rest) =
     (v1 \<noteq> v2 \<and> t1 \<le> t2 \<and> t2 - t1 < transition_time
      \<and> toggles_faster transition_time ((v2, t2) # rest))"
| "toggles_faster transition_time _ = True"

subsection \<open>Port cache invariant\<close>

text \<open>
  The array has its \<open>GPIO_PORT_COUNT\<close> slots, the count stays within them, the cached
  slots hold distinct non-null handles, and the slots behind them are still null.
\<close>

definition cache_inv :: "gpio_cache \<Rightarrow> bool" where
  "cache_inv c =
     (length (gpio_devices c) = GPIO_PORT_COUNT
      \<and> unat (gpio_device_count c) \<le> GPIO_PORT_COUNT
      \<and> NULL \<notin> set (cached_devices c)
      \<and> distinct (cached_devices c)
      \<and> set (drop (unat (gpio_device_count c)) (gpio_devices c)) \<subseteq> {NULL})"

subsection \<open>A sample board\<close>

text \<open>
  A small configuration on which the statements below are evaluated: five lines on one
  port, two of them mode-select lines, a dwell of 5 ticks, and a poll at tick 1000 on
  fresh histories with select, left, the right-stick mode line and the lock line set.
\<close>

definition sample_board :: board where
  "sample_board =
     \<lparr>CONFIG_PASSINGLINK_INPUT = INPUT_GPIO,
      CONFIG_PASSINGLINK_INPUT_QUEUE = False,
      CONFIG_PASSINGLINK_DISPLAY = True,
      PL_GPIO_MODE_LOCK_AVAILABLE = True,
      PL_GPIOS = [(0, gpio.button_select), (1, gpio.stick_left), (2, gpio.mode mode_ls),
                  (3, gpio.mode mode_rs), (4, gpio.mode_lock)],
      PL_GPIO_OUTPUT_MODES = [(2, mode_ls), (3, mode_rs)],
      PL_GPIO_PIN = (\<lambda>_. 0),
      PL_GPIO_ACTIVE_LOW = (\<lambda>_. True),
      k_ms_to_cyc_ceil64_5 = 5\<rparr>"

definition sample_hw :: hw where
  "sample_hw =
     \<lparr>device_get_binding = (\<lambda>_. 7),
      gpio_pin_configure = (\<lambda>_ _. 0),
      gpio_port_get_raw = (\<lambda>d. if d = 7 then (- 5, 0) else (0, 0)),
      input_queue_get_state = None,
      k_uptime_ticks = 1000,
      port_values_uninit = (\<lambda>_. 0)\<rparr>"

definition sample_globals :: "unit globals" where
  "sample_globals =
     \<lparr>globals.touchpad_data = (),
      input_locked = False,
      button_history = (\<lambda>_. \<lparr>state = False, tick = 0\<rparr>),
      display_set_locked_calls = []\<rparr>"

definition sample_raw :: RawInputState where
  "sample_raw =
     (\<lambda>name. name = gpio.button_select \<or> name = gpio.stick_left
         \<or> name = gpio.mode mode_rs \<or> name = gpio.mode_lock)"

definition sample_cache :: gpio_cache where
  "sample_cache =
     \<lparr>gpio_devices = [7, NULL, NULL, NULL], gpio_device_count = 1, gpio_indices = (\<lambda>_. 0)\<rparr>"

definition full_cache :: gpio_cache where
  "full_cache =
     \<lparr>gpio_devices = [7, 8, 9, 10], gpio_device_count = 4, gpio_indices = (\<lambda>_. 0)\<rparr>"

section \<open>Properties\<close>

subsection \<open>Debounce engine\<close>


lemma input_debounce_state: "input_debounce tt v h t = (r, h') \<Longrightarrow> r = state h'"
  by (auto simp add: input_debounce_def Let_def split: if_splits)

lemma change_ticks_Nil: "change_ticks tt h [] = []"
  by (simp add: change_ticks_def)

lemma change_ticks_Cons:
  "input_debounce tt v h t = (r, h') \<Longrightarrow>
   change_ticks tt h ((v, t) # rest) =
     (if r \<noteq> state h then t # change_ticks tt h' rest else change_ticks tt h' rest)"
  by (auto simp add: change_ticks_def split: prod.splits dest: input_debounce_state)

lemma debounce_run_hold:
  "\<forall>s\<in>set samples. snd s - tick h < tt \<Longrightarrow>
   debounce_run tt h samples = (replicate (length samples) (state h), h)"
proof (induction samples)
  case Nil
  then show ?case by simp
next
  case (Cons s samples)
  obtain v t where s: "s = (v, t)" by (cases s)
  from Cons.prems have "t - tick h < tt" by (simp add: s)
  then have "input_debounce tt v h t = (state h, h)"
    by (auto simp add: input_debounce_def Let_def)
  moreover from Cons have "debounce_run tt h samples = (replicate (length samples) (state h), h)"
    by simp
  ultimately show ?case by (simp add: s)
qed

lemma accept_spaced:
  assumes "\<not> t - a < tt" and "a \<le> t"
  shows "unat a + unat tt \<le> unat t"
proof -
  from assms(2) have "unat (t - a) = unat t - unat a"
    by (simp add: unat_sub)
  moreover from assms(1) have "unat tt \<le> unat (t - a)"
    by (simp add: word_less_nat_alt)
  moreover from assms(2) have "unat a \<le> unat t"
    by (simp add: word_le_nat_alt)
  ultimately show ?thesis by arith
qed

lemma change_ticks_spaced:
  "sorted (tick h # map snd samples) \<Longrightarrow>
   sorted_wrt (\<lambda>a b. unat a + unat tt \<le> unat b) (tick h # change_ticks tt h samples)"
proof (induction samples arbitrary: h)
  case Nil
  then show ?case by (simp add: change_ticks_Nil)
next
  case (Cons s samples)
  obtain v t where s: "s = (v, t)" by (cases s)
  obtain r h' where d: "input_debounce tt v h t = (r, h')" by (cases "input_debounce tt v h t")
  from Cons.prems have le: "tick h \<le> t" and srt: "sorted (t # map snd samples)"
    by (simp_all add: s)
  show ?case
  proof (cases "r = state h")
    case True
    with d have "h' = h"
      by (auto simp add: input_debounce_def Let_def split: if_splits)
    moreover from le srt have "sorted (tick h # map snd samples)"
      by auto
    ultimately show ?thesis
      using Cons.IH [of h] d True by (simp add: s change_ticks_Cons)
  next
    case False
    with d have h': "h' = h\<lparr>state := v, tick := t\<rparr>" and acc: "\<not> t - tick h < tt"
      by (auto simp add: input_debounce_def Let_def split: if_splits)
    from srt have IH: "sorted_wrt (\<lambda>a b. unat a + unat tt \<le> unat b) (t # change_ticks tt h' samples)"
      using Cons.IH [of h'] by (simp add: h')
    have first: "unat (tick h) + unat tt \<le> unat t"
      using acc le by (rule accept_spaced)
    have "unat (tick h) + unat tt \<le> unat c" if "c \<in> set (change_ticks tt h' samples)" for c
    proof -
      from IH that have "unat t + unat tt \<le> unat c" by simp
      moreover from le have "unat (tick h) \<le> unat t" by (simp add: word_le_nat_alt)
      ultimately show ?thesis by arith
    qed
    with IH first show ?thesis
      using d False by (simp add: s change_ticks_Cons)
  qed
qed

subsection \<open>Port cache\<close>

lemma find_upt_None: "find P [0..<n] = None \<longleftrightarrow> (\<forall>i<n. \<not> P i)"
  by (simp add: find_None_iff)

lemma find_upt_Some: "find P [0..<n] = Some i \<longleftrightarrow> i < n \<and> P i \<and> (\<forall>j<i. \<not> P j)"
  by (auto simp add: find_Some_iff)

lemma cache_inv_init: "cache_inv gpio_cache_init"
  by (simp add: cache_inv_def gpio_cache_init_def cached_devices_def GPIO_PORT_COUNT_def)

lemma cache_slot:
  assumes inv: "cache_inv c" and dev: "device \<noteq> NULL" and i: "i < GPIO_PORT_COUNT"
    and hit: "gpio_devices c ! i = device"
  shows "i < unat (gpio_device_count c)"
proof (rule ccontr)
  assume "\<not> i < unat (gpio_device_count c)"
  with inv i have "gpio_devices c ! i \<in> set (drop (unat (gpio_device_count c)) (gpio_devices c))"
    by (auto simp add: cache_inv_def in_set_conv_nth intro!: exI [of _ "i - unat (gpio_device_count c)"])
  with inv have "gpio_devices c ! i = NULL"
    by (auto simp add: cache_inv_def)
  with hit dev show False by simp
qed

lemma gpio_device_add_cached:
  assumes inv: "cache_inv c" and dev: "device \<noteq> NULL"
    and cached: "device \<in> set (cached_devices c)"
  shows "\<exists>i. gpio_device_add device c = Inr (i, c) \<and> unat i < unat (gpio_device_count c)
           \<and> gpio_devices c ! unat i = device"
proof -
  from cached obtain k where k: "k < length (cached_devices c)" and "cached_devices c ! k = device"
    by (auto simp add: in_set_conv_nth)
  with inv have "k < GPIO_PORT_COUNT" and "gpio_devices c ! k = device"
    by (simp_all add: cached_devices_def cache_inv_def)
  then have "find (\<lambda>i. device = gpio_devices c ! i) [0..<GPIO_PORT_COUNT] \<noteq> None"
    by (auto simp add: find_upt_None)
  then obtain i where f: "find (\<lambda>i. device = gpio_devices c ! i) [0..<GPIO_PORT_COUNT] = Some i"
    by auto
  then have i: "i < GPIO_PORT_COUNT" and hit: "gpio_devices c ! i = device"
    by (simp_all add: find_upt_Some)
  from inv dev i hit have "i < unat (gpio_device_count c)"
    by (rule cache_slot)
  moreover from i have "unat (of_nat i :: 8 word) = i"
    by (simp add: GPIO_PORT_COUNT_def unat_of_nat)
  moreover from f have "gpio_device_add device c = Inr (of_nat i, c)"
    by (simp add: gpio_device_add_def)
  ultimately show ?thesis using hit by simp
qed

lemma gpio_device_add_miss:
  assumes inv: "cache_inv c" and dev: "device \<noteq> NULL"
    and new: "device \<notin> set (cached_devices c)"
  shows "find (\<lambda>i. device = gpio_devices c ! i) [0..<GPIO_PORT_COUNT] = None"
proof -
  have "gpio_devices c ! i \<noteq> device" if "i < GPIO_PORT_COUNT" for i
  proof
    assume hit: "gpio_devices c ! i = device"
    with inv dev that have "i < unat (gpio_device_count c)"
      by (rule cache_slot)
    with inv that hit have "device \<in> set (cached_devices c)"
      by (auto simp add: cached_devices_def cache_inv_def in_set_conv_nth)
    with new show False by simp
  qed
  then show ?thesis by (auto simp add: find_upt_None)
qed

lemma gpio_device_add_new:
  assumes inv: "cache_inv c" and dev: "device \<noteq> NULL"
    and new: "device \<notin> set (cached_devices c)"
    and room: "unat (gpio_device_count c) < GPIO_PORT_COUNT"
  shows "gpio_device_add device c =
           Inr (gpio_device_count c,
                c\<lparr>gpio_device_count := gpio_device_count c + 1,
                  gpio_devices := (gpio_devices c)[unat (gpio_device_count c) := device]\<rparr>)"
proof -
  from room have "gpio_device_count c \<noteq> of_nat GPIO_PORT_COUNT"
    by (auto simp add: GPIO_PORT_COUNT_def)
  with gpio_device_add_miss [OF inv dev new] show ?thesis
    by (simp add: gpio_device_add_def Let_def)
qed

lemma gpio_device_add_full:
  assumes inv: "cache_inv c" and dev: "device \<noteq> NULL"
    and new: "device \<notin> set (cached_devices c)"
    and full: "unat (gpio_device_count c) = GPIO_PORT_COUNT"
  shows "gpio_device_add device c = Inl (Panic ''ran out of cached GPIO device slots'')"
proof -
  from full have "gpio_device_count c = of_nat GPIO_PORT_COUNT"
    by (simp add: word_unat_eq_iff GPIO_PORT_COUNT_def)
  with gpio_device_add_miss [OF inv dev new] show ?thesis
    by (simp add: gpio_device_add_def)
qed

lemma cached_devices_grow:
  assumes inv: "cache_inv c" and room: "unat (gpio_device_count c) < GPIO_PORT_COUNT"
  shows "cached_devices (c\<lparr>gpio_device_count := gpio_device_count c + 1,
                  gpio_devices := (gpio_devices c)[unat (gpio_device_count c) := device]\<rparr>)
         = cached_devices c @ [device]"
proof -
  from room have "unat (gpio_device_count c + 1) = Suc (unat (gpio_device_count c))"
    by (simp add: GPIO_PORT_COUNT_def unat_word_ariths)
  with inv room show ?thesis
    by (simp add: cached_devices_def cache_inv_def take_Suc_conv_app_nth)
qed


lemma cache_inv_add:
  assumes inv: "cache_inv c" and dev: "device \<noteq> NULL"
    and add: "gpio_device_add device c = Inr (i, c')"
  shows "cache_inv c'"
proof (cases "device \<in> set (cached_devices c)")
  case True
  with inv dev add have "c' = c"
    using gpio_device_add_cached [of c device] by auto
  with inv show ?thesis by simp
next
  case False
  show ?thesis
  proof (cases "unat (gpio_device_count c) < GPIO_PORT_COUNT")
    case room: True
    let ?n = "unat (gpio_device_count c)"
    from inv dev False room add
    have c': "c' = c\<lparr>gpio_device_count := gpio_device_count c + 1,
                     gpio_devices := (gpio_devices c)[?n := device]\<rparr>"
      by (auto simp add: gpio_device_add_new)
    from inv room have cached: "cached_devices c' = cached_devices c @ [device]"
      unfolding c' by (rule cached_devices_grow)
    from room have n: "unat (gpio_device_count c') = Suc ?n"
      by (simp add: c' GPIO_PORT_COUNT_def unat_word_ariths)
    have "set (drop (Suc ?n) ((gpio_devices c)[?n := device])) \<subseteq> set (drop ?n (gpio_devices c))"
      by (simp add: drop_update_cancel set_drop_subset_set_drop)
    with inv have "set (drop (unat (gpio_device_count c')) (gpio_devices c')) \<subseteq> {NULL}"
      by (simp add: n) (simp add: c' cache_inv_def, blast)
    with inv dev False room cached n show ?thesis
      by (simp add: cache_inv_def) (simp add: c')
  next
    case False
    with inv have "unat (gpio_device_count c) = GPIO_PORT_COUNT"
      by (simp add: cache_inv_def)
    with inv dev \<open>device \<notin> set (cached_devices c)\<close> add show ?thesis
      by (simp add: gpio_device_add_full)
  qed
qed

lemma cache_reachable_inv: "cache_reachable c \<Longrightarrow> cache_inv c"
proof (induction rule: cache_reachable.induct)
  case cache_init
  show ?case by (rule cache_inv_init)
next
  case (cache_add c device i c')
  then show ?case by (blast intro: cache_inv_add)
next
  case (cache_index c f)
  then show ?case by (simp add: cache_inv_def cached_devices_def)
qed

lemma gpio_device_add_twice:
  assumes inv: "cache_inv c" and dev: "device \<noteq> NULL"
    and add: "gpio_device_add device c = Inr (i, c')"
  shows "gpio_device_add device c' = Inr (i, c')"
proof (cases "device \<in> set (cached_devices c)")
  case True
  with inv dev add have "c' = c"
    using gpio_device_add_cached [of c device] by auto
  with add show ?thesis by simp
next
  case False
  let ?n = "unat (gpio_device_count c)"
  have room: "?n < GPIO_PORT_COUNT"
  proof (rule ccontr)
    assume "\<not> ?n < GPIO_PORT_COUNT"
    with inv have "?n = GPIO_PORT_COUNT" by (simp add: cache_inv_def)
    with inv dev False add show False by (simp add: gpio_device_add_full)
  qed
  from inv dev False room add
  have i: "i = gpio_device_count c"
    and c': "c' = c\<lparr>gpio_device_count := gpio_device_count c + 1,
                     gpio_devices := (gpio_devices c)[?n := device]\<rparr>"
    by (auto simp add: gpio_device_add_new)
  from inv room have cached: "cached_devices c' = cached_devices c @ [device]"
    unfolding c' by (rule cached_devices_grow)
  from inv have len: "length (cached_devices c) = ?n"
    by (simp add: cached_devices_def cache_inv_def)
  from inv dev add have inv': "cache_inv c'" by (rule cache_inv_add)
  from cached have "device \<in> set (cached_devices c')" by simp
  with inv' dev obtain j where j: "gpio_device_add device c' = Inr (j, c')"
    and lt: "unat j < unat (gpio_device_count c')" and hit: "gpio_devices c' ! unat j = device"
    using gpio_device_add_cached [of c' device] by blast
  from lt hit have "cached_devices c' ! unat j = device"
    by (simp add: cached_devices_def)
  moreover from lt inv' have "unat j < length (cached_devices c')"
    by (simp add: cached_devices_def cache_inv_def)
  ultimately have "unat j = ?n"
    using False len by (auto simp add: cached nth_append split: if_splits)
  then have "j = i" by (simp add: i word_unat_eq_iff)
  with j show ?thesis by simp
qed


lemma replicate_4: "replicate 4 x = [x, x, x, x]"
  by (simp add: numeral_eq_Suc)

subsection \<open>Pipeline\<close>

lemma input_debounce_again:
  "input_debounce tt v h t = (r, h') \<Longrightarrow> input_debounce tt r h' t = (r, h')"
  by (frule input_debounce_state) (simp add: input_debounce_def)

lemma debounce_inputs_line:
  "debounce_inputs tt t es bh inp = (bh', inp') \<Longrightarrow>
   (inp' name, bh' name) =
     (if name \<in> snd ` set es then input_debounce tt (inp name) (bh name) t
      else (inp name, bh name))"
proof (induction es arbitrary: bh inp)
  case Nil
  then show ?case by auto
next
  case (Cons e es)
  obtain index n where e: "e = (index, n)" by (cases e)
  obtain v hist where d: "input_debounce tt (inp n) (bh n) t = (v, hist)"
    by (cases "input_debounce tt (inp n) (bh n) t")
  from Cons.prems have rest: "debounce_inputs tt t es (bh(n := hist)) (inp(n := v)) = (bh', inp')"
    by (simp add: e d)
  show ?case
  proof (cases "name = n")
    case True
    from d have "input_debounce tt v hist t = (v, hist)" by (rule input_debounce_again)
    with Cons.IH [OF rest] True d show ?thesis by (simp add: e)
  next
    case False
    with Cons.IH [OF rest] show ?thesis by (simp add: e)
  qed
qed

lemma debounced_line:
  "debounced b h g inp name =
     (if name \<in> snd ` set (PL_GPIOS b)
      then fst (input_debounce (k_ms_to_cyc_ceil64_5 b) (inp name) (button_history g name) (k_uptime_ticks h))
      else inp name)"
proof -
  obtain bh' inp' where d: "debounce_inputs (k_ms_to_cyc_ceil64_5 b) (k_uptime_ticks h) (PL_GPIOS b)
            (button_history g) inp = (bh', inp')"
    by (cases "debounce_inputs (k_ms_to_cyc_ceil64_5 b) (k_uptime_ticks h) (PL_GPIOS b)
            (button_history g) inp")
  from debounce_inputs_line [OF d, of name] have "inp' name = (if name \<in> snd ` set (PL_GPIOS b)
      then fst (input_debounce (k_ms_to_cyc_ceil64_5 b) (inp name) (button_history g name) (k_uptime_ticks h))
      else inp name)"
    by (auto split: if_splits simp add: prod_eq_iff)
  with d show ?thesis by (simp add: debounced_def)
qed

lemma input_locked_set: "input_locked (input_set_locked b locked g) = locked"
  by (simp add: input_set_locked_def Let_def)

lemma input_parse_locked:
  "input_parse b h g inp = (ok, g', out) \<Longrightarrow>
   input_locked g' =
     (if PL_GPIO_MODE_LOCK_AVAILABLE b then debounced b h g inp gpio.mode_lock else input_locked g)"
  by (auto simp add: input_parse_def debounced_def Let_def input_locked_set split: prod.splits)

lemma input_parse_buttons:
  assumes "input_parse b h g inp = (ok, g', out)"
  shows "button_north out = debounced b h g inp gpio.button_north"
    and "button_east out = debounced b h g inp gpio.button_east"
    and "button_south out = debounced b h g inp gpio.button_south"
    and "button_west out = debounced b h g inp gpio.button_west"
    and "button_l1 out = debounced b h g inp gpio.button_l1"
    and "button_l2 out = debounced b h g inp gpio.button_l2"
    and "button_l3 out = debounced b h g inp gpio.button_l3"
    and "button_r1 out = debounced b h g inp gpio.button_r1"
    and "button_r2 out = debounced b h g inp gpio.button_r2"
    and "button_r3 out = debounced b h g inp gpio.button_r3"
    and "button_touchpad out = debounced b h g inp gpio.button_touchpad"
    and "button_select out = (if input_locked g' then False else debounced b h g inp gpio.button_select)"
    and "button_start out = (if input_locked g' then False else debounced b h g inp gpio.button_start)"
    and "button_home out = (if input_locked g' then False else debounced b h g inp gpio.button_home)"
  using assms
  by (auto simp add: input_parse_def debounced_def Let_def split: prod.splits OutputMode.splits)

lemma input_parse_sticks:
  assumes "input_parse b h g inp = (ok, g', out)"
    and "stick_intent (debounced b h g inp) = (x, y)"
  shows "(dpad out, left_stick_x out, left_stick_y out, right_stick_x out, right_stick_y out) =
     (case select_output_mode (PL_GPIO_OUTPUT_MODES b) (debounced b h g inp) of
        mode_dpad \<Rightarrow> (stick_state_from_x_y x y, 0x80, 0x80, 0x80, 0x80)
      | mode_ls \<Rightarrow> (Neutral, stick_scale x, stick_scale y, 0x80, 0x80)
      | mode_rs \<Rightarrow> (Neutral, 0x80, 0x80, stick_scale x, stick_scale y))"
  using assms
  by (auto simp add: input_parse_def debounced_def Let_def split: prod.splits OutputMode.splits)

lemma read_ports_fault:
  "\<exists>d\<in>set ds. fst (gpio_port_get_raw h d) \<noteq> 0 \<Longrightarrow>
   read_ports h ds = Inl (Panic ''failed to get gpio values'')"
  by (induction ds) (auto split: prod.splits sum.splits)

lemma read_ports_ok:
  "read_ports h ds = Inr vs \<Longrightarrow> \<forall>d\<in>set ds. fst (gpio_port_get_raw h d) = 0"
  by (induction ds arbitrary: vs) (auto split: prod.splits sum.splits if_splits)

lemma input_get_raw_state_ok:
  "input_get_raw_state b h c input_state out = Inr (ok, snap) \<Longrightarrow> ok"
  by (auto simp add: input_get_raw_state_def split: option.splits input_source.splits sum.splits if_splits)

lemma input_parse_ok: "input_parse b h g inp = (ok, g', out) \<Longrightarrow> ok"
  by (auto simp add: input_parse_def Let_def split: prod.splits)

lemma input_get_state_ok:
  "input_get_state b h c input_state g inp out = Inr (ok, g', out') \<Longrightarrow> ok"
  by (auto simp add: input_get_state_def split: sum.splits prod.splits if_splits
      dest: input_get_raw_state_ok input_parse_ok)

lemma select_output_mode_find:
  "select_output_mode ms inp =
     (case find (\<lambda>(index, m). inp (gpio.mode m)) ms of
        None \<Rightarrow> mode_dpad
      | Some (index, m) \<Rightarrow> m)"
  by (induction ms) auto

lemma select_output_mode_dpad:
  "stick_mode_lines ms \<Longrightarrow>
   select_output_mode ms inp = mode_dpad \<longleftrightarrow> (\<forall>(index, m)\<in>set ms. \<not> inp (gpio.mode m))"
  unfolding stick_mode_lines_def by (induction ms) (auto split: if_splits)

lemma input_gpio_init_reachable:
  "cache_reachable c \<Longrightarrow> input_gpio_init_entries h es c = Inr c' \<Longrightarrow> cache_reachable c'"
proof (induction es arbitrary: c)
  case Nil
  then show ?case by simp
next
  case (Cons e es)
  obtain index name where e: "e = (index, name)" by (cases e)
  from Cons.prems(2) obtain i c1 where dev: "device_get_binding h name \<noteq> NULL"
    and add: "gpio_device_add (device_get_binding h name) c = Inr (i, c1)"
    and rest: "input_gpio_init_entries h es (c1\<lparr>gpio_indices := (gpio_indices c1)(index := i)\<rparr>) = Inr c'"
    by (auto simp add: e Let_def split: if_splits sum.splits)
  from Cons.prems(1) dev add have "cache_reachable c1" by (rule cache_add)
  then have "cache_reachable (c1\<lparr>gpio_indices := (gpio_indices c1)(index := i)\<rparr>)"
    by (rule cache_index)
  then show ?case using rest by (rule Cons.IH)
qed

section \<open>The claims\<close>

subsection \<open>The sample board, evaluated\<close>

lemma sample_debounced:
  "debounced sample_board sample_hw sample_globals sample_raw = sample_raw"
  by (rule ext)
    (simp add: debounced_line sample_board_def sample_hw_def sample_globals_def sample_raw_def
      input_debounce_def Let_def)

lemma sample_intent: "stick_intent sample_raw = (- 1, 0)"
  by (simp add: stick_intent_def sample_raw_def Let_def)

lemma sample_mode: "select_output_mode (PL_GPIO_OUTPUT_MODES sample_board) sample_raw = mode_rs"
  by (simp add: sample_board_def sample_raw_def)

lemma sample_cache_step: "gpio_device_add 7 gpio_cache_init = Inr (0, sample_cache)"
  by (simp add: gpio_device_add_def gpio_cache_init_def sample_cache_def GPIO_PORT_COUNT_def
      upt_rec replicate_4)

lemma sample_cache_reachable: "cache_reachable sample_cache"
  by (rule cache_add [OF cache_init _ sample_cache_step]) simp

subsection \<open>Debounce\<close>

text \<open>
  C1. A call of the debounce function with raw value \<open>v\<close>, history \<open>h\<close> and tick \<open>t\<close>:
  if \<open>v\<close> equals the stored state it returns \<open>v\<close> and leaves the history alone;
  otherwise, if the wrapping difference \<open>t - tick h\<close> is below the minimum dwell, it
  returns the negation of \<open>v\<close>, which is the stored state, and leaves the history alone;
  otherwise it stores \<open>v\<close> and \<open>t\<close> and returns \<open>v\<close>.
\<close>

theorem input_debounce_cases:
  "(v = state h \<longrightarrow> input_debounce transition_time v h t = (v, h)) \<and>
   (v \<noteq> state h \<and> t - tick h < transition_time \<longrightarrow>
      input_debounce transition_time v h t = (\<not> v, h) \<and> (\<not> v) = state h) \<and>
   (v \<noteq> state h \<and> \<not> t - tick h < transition_time \<longrightarrow>
      input_debounce transition_time v h t = (v, h\<lparr>state := v, tick := t\<rparr>))"
  by (simp add: input_debounce_def Let_def)

text \<open>
  The three branches at a dwell of 5 ticks, and a rejection across the wrap-around of the
  tick counter (history tick \<open>2^64 - 2\<close>, poll at tick 1).
\<close>

theorem input_debounce_cases_witness:
  "input_debounce 5 True \<lparr>state = True, tick = 7\<rparr> 9 = (True, \<lparr>state = True, tick = 7\<rparr>) \<and>
   input_debounce 5 True \<lparr>state = False, tick = 7\<rparr> 9 = (False, \<lparr>state = False, tick = 7\<rparr>) \<and>
   input_debounce 5 True \<lparr>state = False, tick = 7\<rparr> 12 = (True, \<lparr>state = True, tick = 12\<rparr>) \<and>
   input_debounce 5 True \<lparr>state = False, tick = - 2\<rparr> 1 = (False, \<lparr>state = False, tick = - 2\<rparr>)"
  using input_debounce_cases [where v = True and h = "\<lparr>state = True, tick = 7\<rparr>" and transition_time = 5 and t = 9]
    input_debounce_cases [where v = True and h = "\<lparr>state = False, tick = 7\<rparr>" and transition_time = 5 and t = 9]
    input_debounce_cases [where v = True and h = "\<lparr>state = False, tick = 7\<rparr>" and transition_time = 5 and t = 12]
    input_debounce_cases [where v = True and h = "\<lparr>state = False, tick = - 2\<rparr>" and transition_time = 5 and t = 1]
  by simp

text \<open>
  C10. The value a call of the debounce function returns is the state stored in the history
  when it returns.
\<close>

theorem input_debounce_returns_state:
  "fst (input_debounce transition_time v h t) = state (snd (input_debounce transition_time v h t))"
  by (auto simp add: input_debounce_def Let_def)

text \<open>
  C7, as stated: a raw input that toggles faster than the minimum dwell never changes the
  accepted value. It does: with a dwell of 5 ticks and a history that last changed at tick
  0, a raw input that flips on every tick from 100 on is accepted at tick 100, held until
  tick 104, and accepted again at tick 105.
\<close>

theorem debounce_fast_toggle_counterexample:
  "toggles_faster 5 [(True, 100), (False, 101), (True, 102), (False, 103), (True, 104), (False, 105)]
   \<and> sorted (map snd [(True, 100), (False, 101), (True, 102), (False, 103), (True, 104), (False, 105 :: 64 word)])
   \<and> state \<lparr>state = False, tick = 0\<rparr> = False
   \<and> debounce_run 5 \<lparr>state = False, tick = 0\<rparr>
        [(True, 100), (False, 101), (True, 102), (False, 103), (True, 104), (False, 105)]
      = ([True, True, True, True, True, False], \<lparr>state = False, tick = 105\<rparr>)
   \<and> fst (debounce_run 5 \<lparr>state = False, tick = 0\<rparr>
        [(True, 100), (False, 101), (True, 102), (False, 103), (True, 104), (False, 105)])
      \<noteq> map (\<lambda>s. state \<lparr>state = False, tick = 0\<rparr>)
          [(True, 100), (False, 101), (True, 102), (False, 103), (True, 104), (False, 105 :: 64 word)]"
  by (simp add: input_debounce_def Let_def)

text \<open>
  C7, amended. While every sample comes less than the minimum dwell (wrapping
  subtraction) after the tick stored in the history, every call returns the stored state
  and the history is not written. And for ticks that do not decrease, starting at or after
  the stored tick: the stored tick and the ticks at which the accepted value changes are
  pairwise at least the minimum dwell apart, so the accepted value changes at most once
  in any window of that length.
\<close>

theorem debounce_dwell:
  "((\<forall>s\<in>set samples. snd s - tick h < transition_time) \<longrightarrow>
      debounce_run transition_time h samples = (replicate (length samples) (state h), h))
   \<and> (sorted (tick h # map snd samples) \<longrightarrow>
        (\<forall>i j. i < j \<and> j < length (tick h # change_ticks transition_time h samples) \<longrightarrow>
           unat ((tick h # change_ticks transition_time h samples) ! i) + unat transition_time
             \<le> unat ((tick h # change_ticks transition_time h samples) ! j)))"
proof -
  have "\<forall>i j. i < j \<and> j < length (tick h # change_ticks transition_time h samples) \<longrightarrow>
           unat ((tick h # change_ticks transition_time h samples) ! i) + unat transition_time
             \<le> unat ((tick h # change_ticks transition_time h samples) ! j)"
    if "sorted (tick h # map snd samples)"
    using change_ticks_spaced [OF that, of transition_time]
    unfolding sorted_wrt_iff_nth_less by blast
  then show ?thesis
    using debounce_run_hold [of samples h transition_time] by blast
qed

text \<open>
  Three samples inside the dwell after tick 100 are all held; the run of the
  counterexample changes at ticks 100 and 105 only.
\<close>

theorem debounce_dwell_witness:
  "list_all (\<lambda>s. snd s - tick \<lparr>state = False, tick = 100\<rparr> < 5)
     [(True, 101), (False, 102), (True, 103 :: 64 word)]
   \<and> debounce_run 5 \<lparr>state = False, tick = 100\<rparr> [(True, 101), (False, 102), (True, 103)]
        = ([False, False, False], \<lparr>state = False, tick = 100\<rparr>)
   \<and> sorted (tick \<lparr>state = False, tick = 0\<rparr> #
        map snd [(True, 100), (False, 101), (True, 102), (False, 103), (True, 104), (False, 105)])
   \<and> change_ticks 5 \<lparr>state = False, tick = 0\<rparr>
        [(True, 100), (False, 101), (True, 102), (False, 103), (True, 104), (False, 105)] = [100, 105]
   \<and> unat (100 :: 64 word) + unat (5 :: 64 word) \<le> unat (105 :: 64 word)"
  using debounce_dwell [of "[(True, 101), (False, 102), (True, 103)]" "\<lparr>state = False, tick = 100\<rparr>" 5]
    debounce_dwell [of "[(True, 100), (False, 101), (True, 102), (False, 103), (True, 104), (False, 105)]"
      "\<lparr>state = False, tick = 0\<rparr>" 5]
  by (simp add: change_ticks_def input_debounce_def Let_def)

subsection \<open>Stick synthesiser\<close>

text \<open>
  C2. Up and down asserted together give vertical intent 0, left and right asserted
  together give horizontal intent 0, whatever the lines of the other axis are.
\<close>

theorem stick_intent_socd:
  "(inp gpio.stick_up \<and> inp gpio.stick_down \<longrightarrow> snd (stick_intent inp) = 0) \<and>
   (inp gpio.stick_left \<and> inp gpio.stick_right \<longrightarrow> fst (stick_intent inp) = 0)"
  by (simp add: stick_intent_def Let_def)

text \<open>
  Up and down cancel while right alone moves the horizontal axis; left and right cancel
  while up alone moves the vertical axis.
\<close>

theorem stick_intent_socd_witness:
  "stick_intent (\<lambda>name. name \<in> {gpio.stick_up, gpio.stick_down, gpio.stick_right}) = (1, 0) \<and>
   stick_intent (\<lambda>name. name \<in> {gpio.stick_left, gpio.stick_right, gpio.stick_up}) = (0, - 1)"
  using stick_intent_socd [of "\<lambda>name. name \<in> {gpio.stick_up, gpio.stick_down, gpio.stick_right}"]
    stick_intent_socd [of "\<lambda>name. name \<in> {gpio.stick_left, gpio.stick_right, gpio.stick_up}"]
  by (simp add: stick_intent_def Let_def)

text \<open>
  C3. The digital-pad mapping on the nine sign pairs (horizontal, vertical).
\<close>

theorem stick_state_from_x_y_table:
  "stick_state_from_x_y 0 (- 1) = North \<and>
   stick_state_from_x_y 1 (- 1) = NorthEast \<and>
   stick_state_from_x_y 1 0 = East \<and>
   stick_state_from_x_y 1 1 = SouthEast \<and>
   stick_state_from_x_y 0 1 = South \<and>
   stick_state_from_x_y (- 1) 1 = SouthWest \<and>
   stick_state_from_x_y (- 1) 0 = West \<and>
   stick_state_from_x_y (- 1) (- 1) = NorthWest \<and>
   stick_state_from_x_y 0 0 = Neutral"
  by (simp add: stick_state_from_x_y_def)

text \<open>
  C4. In a stick mode each axis of the selected stick is the scaled sign of the intent
  (-1 to 0x00, 0 to 0x80, +1 to 0xFF), the pad is Neutral and the other stick is at
  (0x80, 0x80); in digital-pad mode both sticks are at (0x80, 0x80). \<open>m\<close> is the mode the
  scan selected and \<open>(x, y)\<close> the intent, both taken from the debounced snapshot.
\<close>

theorem stick_mode_outputs:
  assumes "input_parse b h g inp = (ok, g', out)"
    and "select_output_mode (PL_GPIO_OUTPUT_MODES b) (debounced b h g inp) = m"
    and "stick_intent (debounced b h g inp) = (x, y)"
  shows "(m = mode_ls \<longrightarrow>
            left_stick_x out = stick_scale x \<and> left_stick_y out = stick_scale y
            \<and> dpad out = Neutral \<and> right_stick_x out = 0x80 \<and> right_stick_y out = 0x80)
       \<and> (m = mode_rs \<longrightarrow>
            right_stick_x out = stick_scale x \<and> right_stick_y out = stick_scale y
            \<and> dpad out = Neutral \<and> left_stick_x out = 0x80 \<and> left_stick_y out = 0x80)
       \<and> (m = mode_dpad \<longrightarrow>
            left_stick_x out = 0x80 \<and> left_stick_y out = 0x80
            \<and> right_stick_x out = 0x80 \<and> right_stick_y out = 0x80)
       \<and> x \<in> {- 1, 0, 1} \<and> y \<in> {- 1, 0, 1}
       \<and> stick_scale (- 1) = 0x00 \<and> stick_scale 0 = 0x80 \<and> stick_scale 1 = 0xFF"
proof -
  from assms(3) have "x \<in> {- 1, 0, 1}" and "y \<in> {- 1, 0, 1}"
    by (auto simp add: stick_intent_def Let_def split: if_splits)
  moreover have "stick_scale (- 1) = 0x00 \<and> stick_scale 0 = 0x80 \<and> stick_scale 1 = 0xFF"
    by (simp add: stick_scale_def)
  ultimately show ?thesis
    using input_parse_sticks [OF assms(1) assms(3)] assms(2) by auto
qed

text \<open>
  The sample poll: right-stick mode with left held gives right stick (0x00, 0x80), pad
  Neutral, left stick (0x80, 0x80).
\<close>

theorem stick_mode_outputs_witness:
  "select_output_mode (PL_GPIO_OUTPUT_MODES sample_board)
       (debounced sample_board sample_hw sample_globals sample_raw) = mode_rs
   \<and> stick_intent (debounced sample_board sample_hw sample_globals sample_raw) = (- 1, 0)
   \<and> right_stick_x (snd (snd (input_parse sample_board sample_hw sample_globals sample_raw))) = 0x00
   \<and> right_stick_y (snd (snd (input_parse sample_board sample_hw sample_globals sample_raw))) = 0x80
   \<and> dpad (snd (snd (input_parse sample_board sample_hw sample_globals sample_raw))) = Neutral
   \<and> left_stick_x (snd (snd (input_parse sample_board sample_hw sample_globals sample_raw))) = 0x80
   \<and> left_stick_y (snd (snd (input_parse sample_board sample_hw sample_globals sample_raw))) = 0x80"
  using stick_mode_outputs [of sample_board sample_hw sample_globals sample_raw
      "fst (input_parse sample_board sample_hw sample_globals sample_raw)"
      "fst (snd (input_parse sample_board sample_hw sample_globals sample_raw))"
      "snd (snd (input_parse sample_board sample_hw sample_globals sample_raw))"
      mode_rs "- 1" 0]
  by (simp add: sample_debounced sample_intent sample_mode stick_scale_def)

text \<open>
  C5. The output mode is the mode of the first asserted entry of the mode-select list in
  declaration order, and \<open>mode_dpad\<close> when none is asserted. When the list declares
  stick-mode lines only, digital-pad is selected exactly when no mode-select line is
  asserted.
\<close>

theorem select_output_mode_first:
  "select_output_mode ms inp =
     (case find (\<lambda>(index, m). inp (gpio.mode m)) ms of
        None \<Rightarrow> mode_dpad
      | Some (index, m) \<Rightarrow> m)
   \<and> (stick_mode_lines ms \<longrightarrow>
        (select_output_mode ms inp = mode_dpad \<longleftrightarrow> (\<forall>(index, m)\<in>set ms. \<not> inp (gpio.mode m))))"
  using select_output_mode_find [of ms inp] select_output_mode_dpad [of ms inp] by simp

text \<open>
  With the lines of \<open>mode_ls\<close> and \<open>mode_rs\<close> declared in this order: both asserted
  selects \<open>mode_ls\<close>, only the second selects \<open>mode_rs\<close>, none selects \<open>mode_dpad\<close>.
\<close>

theorem select_output_mode_first_witness:
  "stick_mode_lines [(2, mode_ls), (3, mode_rs)]
   \<and> select_output_mode [(2, mode_ls), (3, mode_rs)] (\<lambda>name. True) = mode_ls
   \<and> select_output_mode [(2, mode_ls), (3, mode_rs)] (\<lambda>name. name = gpio.mode mode_rs) = mode_rs
   \<and> select_output_mode [(2, mode_ls), (3, mode_rs)] (\<lambda>name. False) = mode_dpad"
  using select_output_mode_first [of "[(2, mode_ls), (3, mode_rs)]" "\<lambda>name. True"]
    select_output_mode_first [of "[(2, mode_ls), (3, mode_rs)]" "\<lambda>name. name = gpio.mode mode_rs"]
    select_output_mode_first [of "[(2, mode_ls), (3, mode_rs)]" "\<lambda>name. False"]
  by (simp add: stick_mode_lines_def)

subsection \<open>Lock gate\<close>

text \<open>
  C6. With the lock state true, select, start and home are false in the output; with the
  lock state false they carry their debounced values; every other button carries its
  debounced value in both cases. The lock state read is the one after the lock line, when
  the board has one, has been fed in; the debounced value of a declared line is what its
  debounce call returned.
\<close>

theorem lock_gate_buttons:
  assumes "input_parse b h g inp = (ok, g', out)"
  shows "(input_locked g' \<longrightarrow> \<not> button_select out \<and> \<not> button_start out \<and> \<not> button_home out)
       \<and> (\<not> input_locked g' \<longrightarrow>
            button_select out = debounced b h g inp gpio.button_select
            \<and> button_start out = debounced b h g inp gpio.button_start
            \<and> button_home out = debounced b h g inp gpio.button_home)
       \<and> button_north out = debounced b h g inp gpio.button_north
       \<and> button_east out = debounced b h g inp gpio.button_east
       \<and> button_south out = debounced b h g inp gpio.button_south
       \<and> button_west out = debounced b h g inp gpio.button_west
       \<and> button_l1 out = debounced b h g inp gpio.button_l1
       \<and> button_l2 out = debounced b h g inp gpio.button_l2
       \<and> button_l3 out = debounced b h g inp gpio.button_l3
       \<and> button_r1 out = debounced b h g inp gpio.button_r1
       \<and> button_r2 out = debounced b h g inp gpio.button_r2
       \<and> button_r3 out = debounced b h g inp gpio.button_r3
       \<and> button_touchpad out = debounced b h g inp gpio.button_touchpad
       \<and> input_locked g' =
            (if PL_GPIO_MODE_LOCK_AVAILABLE b then debounced b h g inp gpio.mode_lock
             else input_locked g)
       \<and> (\<forall>name\<in>snd ` set (PL_GPIOS b).
            debounced b h g inp name =
              fst (input_debounce (k_ms_to_cyc_ceil64_5 b) (inp name) (button_history g name)
                     (k_uptime_ticks h)))"
  using input_parse_buttons [OF assms] input_parse_locked [OF assms]
  by (simp add: debounced_line)

text \<open>
  The sample poll with the lock line set suppresses a pressed select; the same poll with
  the lock line clear passes it through.
\<close>

theorem lock_gate_buttons_witness:
  "input_locked (fst (snd (input_parse sample_board sample_hw sample_globals sample_raw)))
   \<and> debounced sample_board sample_hw sample_globals sample_raw gpio.button_select
   \<and> \<not> button_select (snd (snd (input_parse sample_board sample_hw sample_globals sample_raw)))
   \<and> \<not> button_start (snd (snd (input_parse sample_board sample_hw sample_globals sample_raw)))
   \<and> \<not> button_home (snd (snd (input_parse sample_board sample_hw sample_globals sample_raw)))
   \<and> \<not> input_locked (fst (snd (input_parse sample_board sample_hw sample_globals
           (sample_raw(gpio.mode_lock := False)))))
   \<and> button_select (snd (snd (input_parse sample_board sample_hw sample_globals
           (sample_raw(gpio.mode_lock := False)))))"
  using lock_gate_buttons [of sample_board sample_hw sample_globals sample_raw
      "fst (input_parse sample_board sample_hw sample_globals sample_raw)"
      "fst (snd (input_parse sample_board sample_hw sample_globals sample_raw))"
      "snd (snd (input_parse sample_board sample_hw sample_globals sample_raw))"]
    lock_gate_buttons [of sample_board sample_hw sample_globals "sample_raw(gpio.mode_lock := False)"
      "fst (input_parse sample_board sample_hw sample_globals (sample_raw(gpio.mode_lock := False)))"
      "fst (snd (input_parse sample_board sample_hw sample_globals (sample_raw(gpio.mode_lock := False))))"
      "snd (snd (input_parse sample_board sample_hw sample_globals (sample_raw(gpio.mode_lock := False))))"]
  by (simp add: sample_board_def sample_hw_def sample_globals_def sample_raw_def
      input_debounce_def Let_def)

subsection \<open>Port cache and fatal conditions\<close>

text \<open>
  C8. In every state the cache can reach, for a non-null handle: a cached handle gets its
  existing index back and the cache is unchanged; a new handle, while there is room, gets
  the next free index and is appended; registering again after a call that returned gives
  the same index and the same cache; and the cached handles are distinct.
\<close>

theorem gpio_device_add_register:
  assumes "cache_reachable c" and "device \<noteq> NULL"
  shows "(device \<in> set (cached_devices c) \<longrightarrow>
            (\<exists>i. gpio_device_add device c = Inr (i, c)
                \<and> unat i < unat (gpio_device_count c) \<and> gpio_devices c ! unat i = device))
       \<and> (device \<notin> set (cached_devices c) \<and> unat (gpio_device_count c) < GPIO_PORT_COUNT \<longrightarrow>
            (\<exists>c'. gpio_device_add device c = Inr (gpio_device_count c, c')
                \<and> cached_devices c' = cached_devices c @ [device]
                \<and> gpio_devices c' ! unat (gpio_device_count c) = device))
       \<and> (\<forall>i c'. gpio_device_add device c = Inr (i, c') \<longrightarrow>
            gpio_device_add device c' = Inr (i, c'))
       \<and> distinct (cached_devices c)"
proof -
  from assms(1) have inv: "cache_inv c" by (rule cache_reachable_inv)
  have new: "\<exists>c'. gpio_device_add device c = Inr (gpio_device_count c, c')
                \<and> cached_devices c' = cached_devices c @ [device]
                \<and> gpio_devices c' ! unat (gpio_device_count c) = device"
    if "device \<notin> set (cached_devices c)" and "unat (gpio_device_count c) < GPIO_PORT_COUNT"
    using inv assms(2) that
    by (simp add: gpio_device_add_new cached_devices_grow) (simp add: cache_inv_def)
  have old: "\<exists>i. gpio_device_add device c = Inr (i, c)
                \<and> unat i < unat (gpio_device_count c) \<and> gpio_devices c ! unat i = device"
    if "device \<in> set (cached_devices c)"
    using inv assms(2) that by (rule gpio_device_add_cached)
  have twice: "gpio_device_add device c' = Inr (i, c')"
    if "gpio_device_add device c = Inr (i, c')" for i c'
    using inv assms(2) that by (rule gpio_device_add_twice)
  from inv have "distinct (cached_devices c)"
    by (simp add: cache_inv_def)
  with old new twice show ?thesis by blast
qed

text \<open>
  A cache holding handle 7: registering 7 again returns index 0 and the same cache,
  registering 9 returns index 1 and a cache holding 7 and 9.
\<close>

theorem gpio_device_add_register_witness:
  "cache_reachable sample_cache \<and> (7 :: device) \<noteq> NULL \<and> (9 :: device) \<noteq> NULL
   \<and> 7 \<in> set (cached_devices sample_cache)
   \<and> gpio_device_add 7 sample_cache = Inr (0, sample_cache)
   \<and> 9 \<notin> set (cached_devices sample_cache)
   \<and> unat (gpio_device_count sample_cache) < GPIO_PORT_COUNT
   \<and> (\<exists>c'. gpio_device_add 9 sample_cache = Inr (1, c') \<and> cached_devices c' = [7, 9])
   \<and> distinct (cached_devices sample_cache)"
  using gpio_device_add_register [OF sample_cache_reachable, of 7]
    gpio_device_add_register [OF sample_cache_reachable, of 9] sample_cache_reachable
  by (simp add: sample_cache_def cached_devices_def GPIO_PORT_COUNT_def gpio_device_add_def upt_rec)

text \<open>
  C9. Registering a handle that is not cached into a full cache panics, and a poll in
  which a port read reports a fault panics, in the reader and in the pipeline; whenever
  the reader or the pipeline does return, the returned flag is true.
\<close>

theorem fatal_conditions_panic:
  "(length (gpio_devices c) = GPIO_PORT_COUNT \<and> unat (gpio_device_count c) = GPIO_PORT_COUNT
      \<and> device \<notin> set (cached_devices c) \<longrightarrow>
      gpio_device_add device c = Inl (Panic ''ran out of cached GPIO device slots''))
   \<and> (CONFIG_PASSINGLINK_INPUT b = INPUT_GPIO
        \<and> (CONFIG_PASSINGLINK_INPUT_QUEUE b \<longrightarrow> input_queue_get_state h = None)
        \<and> (\<exists>d\<in>set (cached_devices c). fst (gpio_port_get_raw h d) \<noteq> 0) \<longrightarrow>
        input_get_raw_state b h c input_state input = Inl (Panic ''failed to get gpio values'')
        \<and> input_get_state b h c input_state g input out = Inl (Panic ''failed to get gpio values''))
   \<and> (\<forall>ok snap. input_get_raw_state b h c input_state input = Inr (ok, snap) \<longrightarrow> ok)
   \<and> (\<forall>ok g' out'. input_get_state b h c input_state g input out = Inr (ok, g', out') \<longrightarrow> ok)"
proof -
  have full: "gpio_device_add device c = Inl (Panic ''ran out of cached GPIO device slots'')"
    if len: "length (gpio_devices c) = GPIO_PORT_COUNT"
      and cnt: "unat (gpio_device_count c) = GPIO_PORT_COUNT"
      and new: "device \<notin> set (cached_devices c)"
  proof -
    from len cnt new have "\<forall>i<GPIO_PORT_COUNT. gpio_devices c ! i \<noteq> device"
      by (auto simp add: cached_devices_def in_set_conv_nth)
    then have "find (\<lambda>i. device = gpio_devices c ! i) [0..<GPIO_PORT_COUNT] = None"
      by (auto simp add: find_upt_None)
    moreover from cnt have "gpio_device_count c = of_nat GPIO_PORT_COUNT"
      by (simp add: word_unat_eq_iff GPIO_PORT_COUNT_def)
    ultimately show ?thesis by (simp add: gpio_device_add_def)
  qed
  have fault: "input_get_raw_state b h c input_state input = Inl (Panic ''failed to get gpio values'')"
    if "CONFIG_PASSINGLINK_INPUT b = INPUT_GPIO"
      and "CONFIG_PASSINGLINK_INPUT_QUEUE b \<longrightarrow> input_queue_get_state h = None"
      and "\<exists>d\<in>set (cached_devices c). fst (gpio_port_get_raw h d) \<noteq> 0"
    using that read_ports_fault [of "cached_devices c" h]
    by (auto simp add: input_get_raw_state_def)
  then have "input_get_state b h c input_state g input out = Inl (Panic ''failed to get gpio values'')"
    if "CONFIG_PASSINGLINK_INPUT b = INPUT_GPIO"
      and "CONFIG_PASSINGLINK_INPUT_QUEUE b \<longrightarrow> input_queue_get_state h = None"
      and "\<exists>d\<in>set (cached_devices c). fst (gpio_port_get_raw h d) \<noteq> 0"
    using that by (simp add: input_get_state_def)
  with full fault show ?thesis
    using input_get_raw_state_ok [of b h c input_state input]
      input_get_state_ok [of b h c input_state g input out]
    by blast
qed

text \<open>
  A fifth handle on a full cache; the sample hardware, whose port 7 reports -5; and the
  same hardware with a healthy port, which yields a complete snapshot.
\<close>

theorem fatal_conditions_panic_witness:
  "length (gpio_devices full_cache) = GPIO_PORT_COUNT
   \<and> unat (gpio_device_count full_cache) = GPIO_PORT_COUNT
   \<and> 11 \<notin> set (cached_devices full_cache)
   \<and> gpio_device_add 11 full_cache = Inl (Panic ''ran out of cached GPIO device slots'')
   \<and> CONFIG_PASSINGLINK_INPUT sample_board = INPUT_GPIO
   \<and> \<not> CONFIG_PASSINGLINK_INPUT_QUEUE sample_board
   \<and> (\<exists>d\<in>set (cached_devices sample_cache). fst (gpio_port_get_raw sample_hw d) \<noteq> 0)
   \<and> input_get_state sample_board sample_hw sample_cache sample_raw sample_globals sample_raw
        (snd (snd (input_parse sample_board sample_hw sample_globals sample_raw)))
      = Inl (Panic ''failed to get gpio values'')
   \<and> input_get_raw_state sample_board (sample_hw\<lparr>gpio_port_get_raw := (\<lambda>d. (0, 0))\<rparr>) sample_cache
        sample_raw sample_raw = Inr (True, (\<lambda>name. name \<in> snd ` set (PL_GPIOS sample_board) \<or> sample_raw name))"
  using fatal_conditions_panic [where c = full_cache and device = 11 and b = sample_board
      and h = sample_hw and input_state = sample_raw and input = sample_raw and g = sample_globals
      and out = "snd (snd (input_parse sample_board sample_hw sample_globals sample_raw))"]
    fatal_conditions_panic [where c = sample_cache and device = 11 and b = sample_board
      and h = sample_hw and input_state = sample_raw and input = sample_raw and g = sample_globals
      and out = "snd (snd (input_parse sample_board sample_hw sample_globals sample_raw))"]
  by (auto simp add: full_cache_def sample_cache_def sample_board_def sample_hw_def cached_devices_def
      GPIO_PORT_COUNT_def input_get_raw_state_def port_value_def sample_raw_def fun_eq_iff)

end
